theory Spec2Isabelle
  imports Complex_Main
begin

section \<open>Arrays\<close>

text \<open>
  A numpy array is a shape and a buffer in row-major (C) order. It is well formed when
  the buffer holds one element per index tuple.
\<close>

record 'a ndarray =
  nd_shape :: "nat list"
  nd_buf :: "'a list"

definition nd_ndim :: "'a ndarray \<Rightarrow> nat" where
  "nd_ndim a = length (nd_shape a)"

definition nd_wf :: "'a ndarray \<Rightarrow> bool" where
  "nd_wf a = (length (nd_buf a) = prod_list (nd_shape a))"

text \<open>
  The exceptions of the module and of the numpy and list operations it calls. The module
  raises \<^verbatim>\<open>ValueError\<close> with four different messages; each message is a constructor.
\<close>

datatype error =
    AxesCountError        \<comment> \<open>ValueError("Number of supplied axes is wrong!")\<close>
  | AxesShapeError        \<comment> \<open>ValueError("Shape of supplied axes is wrong!")\<close>
  | ArityError            \<comment> \<open>ValueError("Number of limits must match the specified axes!")\<close>
  | EmptySliceError nat   \<comment> \<open>ValueError('Selected empty slice along axis %d!' % i)\<close>
  | EmptySequenceError    \<comment> \<open>numpy: argmin or max of an array without elements\<close>
  | IndexError            \<comment> \<open>list index out of range, too many indices, a list of slices as index\<close>
  | AxisError             \<comment> \<open>numpy: axis out of bounds for the array\<close>
  | GridError             \<comment> \<open>a target axis that is None cannot be evaluated on\<close>
  | CollaboratorError     \<comment> \<open>raised by a function outside this module\<close>

subsection \<open>Slices\<close>

text \<open>
  The three slice objects the module builds: \<^verbatim>\<open>slice(None)\<close>,
  \<^verbatim>\<open>slice(idx1, idx2 + 1)\<close> and \<^verbatim>\<open>slice(None, None, -1)\<close>.
  \<open>slice_indices n s\<close> lists the positions that \<open>s\<close> selects in a dimension
  of size \<open>n\<close>; as in Python, the bounds of a range are clipped to the size.
\<close>

datatype slice = SliceAll | SliceRange nat nat | SliceReverse

fun slice_indices :: "nat \<Rightarrow> slice \<Rightarrow> nat list" where
  "slice_indices n SliceAll = [0..<n]"
| "slice_indices n (SliceRange a b) = [min a n..<min b n]"
| "slice_indices n SliceReverse = rev [0..<n]"

text \<open>Slicing a one-dimensional array: \<^verbatim>\<open>ax[s]\<close>.\<close>

definition slice1 :: "slice \<Rightarrow> 'a list \<Rightarrow> 'a list" where
  "slice1 s xs = map (\<lambda>i. xs ! i) (slice_indices (length xs) s)"

text \<open>
  \<open>gather ns iss buf\<close> picks, along each leading dimension, the positions listed for
  it; dimensions after the last list are kept whole. The block of position \<open>i\<close> of the
  first dimension is \<open>take p (drop (i * p) buf)\<close> with \<open>p\<close> the size of a block.
\<close>

fun gather :: "nat list \<Rightarrow> nat list list \<Rightarrow> 'a list \<Rightarrow> 'a list" where
  "gather [] iss buf = buf"
| "gather (n # ns) [] buf = buf"
| "gather (n # ns) (is # iss) buf =
     concat (map (\<lambda>i. gather ns iss (take (prod_list ns) (drop (i * prod_list ns) buf))) is)"

text \<open>
  Indexing with a tuple of slices, \<^verbatim>\<open>data[(*slices,)]\<close>: more slices than dimensions
  is numpy's IndexError; fewer leave the trailing dimensions whole.
\<close>

definition nd_getitem :: "slice list \<Rightarrow> 'a ndarray \<Rightarrow> error + 'a ndarray" where
  "nd_getitem slices a =
     (if length slices > nd_ndim a then Inl IndexError
      else let iss = map2 slice_indices (nd_shape a) slices in
        Inr \<lparr>nd_shape = map length iss @ drop (length slices) (nd_shape a),
             nd_buf = gather (nd_shape a) iss (nd_buf a)\<rparr>)"

subsection \<open>Searching\<close>

text \<open>
  \<^verbatim>\<open>np.argmin\<close>: the first position of the smallest element; an array without elements
  raises. The scan keeps the best position and value so far and replaces them on a
  strictly smaller element.
\<close>

fun argmin_scan :: "nat \<Rightarrow> 'a::linorder \<Rightarrow> nat \<Rightarrow> 'a list \<Rightarrow> nat" where
  "argmin_scan bi bv i [] = bi"
| "argmin_scan bi bv i (x # xs) =
     (if x < bv then argmin_scan i x (Suc i) xs else argmin_scan bi bv (Suc i) xs)"

fun argmin :: "'a::linorder list \<Rightarrow> error + nat" where
  "argmin [] = Inl EmptySequenceError"
| "argmin (x # xs) = Inr (argmin_scan 0 x 1 xs)"

text \<open>\<^verbatim>\<open>np.argmin(np.abs(ax - x))\<close>: the sample of \<open>ax\<close> nearest to \<open>x\<close>.\<close>

definition nearest :: "'a::linordered_idom list \<Rightarrow> 'a \<Rightarrow> error + nat" where
  "nearest ax x = argmin (map (\<lambda>a. \<bar>a - x\<bar>) ax)"

section \<open>The mesh container\<close>

text \<open>
  The fields of a \<^verbatim>\<open>MeshData\<close> instance. An axis is a one-dimensional array of
  coordinates, a list here; data and coordinates are numbers of one ordered type \<open>'a\<close>
  (an ordered ring for \<open>limit\<close>, an ordered field for \<open>normalize\<close>), so rounding is
  not part of the model. A method takes the instance and returns it as the call leaves
  it: \<open>Inr\<close> after a normal return, \<open>Inl\<close> with the exception after a raise.
\<close>

record 'a MeshData =
  data :: "'a ndarray"
  axes :: "'a list list"
  labels :: "string list"
  units :: "string list"

definition shape :: "'a MeshData \<Rightarrow> nat list" where
  "shape self = nd_shape (data self)"

definition ndim :: "'a MeshData \<Rightarrow> nat" where
  "ndim self = nd_ndim (data self)"

text \<open>
  \<^verbatim>\<open>MeshData.__init__\<close>. The arguments are copied, the two checks follow, then the
  defaults of labels and units: one empty string for each axis.
\<close>

definition init ::
  "'a ndarray \<Rightarrow> 'a list list \<Rightarrow> string list option \<Rightarrow> string list option
     \<Rightarrow> error + 'a MeshData" where
  "init d axs lbls unts =
     (if nd_ndim d \<noteq> length axs then Inl AxesCountError
      else if nd_shape d \<noteq> map length axs then Inl AxesShapeError
      else Inr \<lparr>data = d, axes = axs,
                labels = (case lbls of None \<Rightarrow> map (\<lambda>ax. '''') axs | Some l \<Rightarrow> l),
                units = (case unts of None \<Rightarrow> map (\<lambda>ax. '''') axs | Some u \<Rightarrow> u)\<rparr>)"

text \<open>\<^verbatim>\<open>MeshData.copy\<close>: a new instance built from the fields of this one.\<close>

definition copy :: "'a MeshData \<Rightarrow> error + 'a MeshData" where
  "copy self = init (data self) (axes self) (Some (labels self)) (Some (units self))"

text \<open>The two conditions the constructor checks, as a predicate on a container.\<close>

definition shape_inv :: "'a MeshData \<Rightarrow> bool" where
  "shape_inv self = (length (axes self) = ndim self \<and> map length (axes self) = shape self)"




subsection \<open>Helpers of the library module\<close>

text \<open>
  Modelled from the spec: \<^verbatim>\<open>lib.as_list\<close> is not among the sources. The module calls
  it on the requested axis indices, a tuple or a list of integers, to have them as a list.
\<close>

definition as_list :: "int list \<Rightarrow> int list" where
  "as_list x = x"

text \<open>
  \<^verbatim>\<open>axes.index(j)\<close>, the first position of \<open>j\<close>. The module calls it only
  under \<^verbatim>\<open>if j in axes\<close>; for an absent element the length of the list is returned.
\<close>

fun index_of :: "int list \<Rightarrow> int \<Rightarrow> nat" where
  "index_of [] y = 0"
| "index_of (x # xs) y = (if x = y then 0 else Suc (index_of xs y))"

text \<open>
  Indexing a Python list of length \<open>n\<close> with an integer: negative integers count from
  the end, anything else out of range raises IndexError (\<open>None\<close> here).
\<close>

definition py_index :: "nat \<Rightarrow> int \<Rightarrow> nat option" where
  "py_index n i =
     (if 0 \<le> i \<and> i < int n then Some (nat i)
      else if - int n \<le> i \<and> i < 0 then Some (nat (int n + i))
      else None)"

subsection \<open>limit\<close>

text \<open>
  The body of the loop of \<^verbatim>\<open>MeshData.limit\<close> for a requested axis: the two nearest
  samples, swapped when out of order, and the error when they coincide. \<open>i\<close> is the
  position of the axis in the request, which the message reports.
\<close>

definition limit_slice :: "'a::linordered_idom list \<Rightarrow> 'a \<times> 'a \<Rightarrow> nat \<Rightarrow> error + slice" where
  "limit_slice ax bounds i =
     (case bounds of (x1, x2) \<Rightarrow>
       (case nearest ax x1 of
          Inl e \<Rightarrow> Inl e
        | Inr idx1 \<Rightarrow>
           (case nearest ax x2 of
              Inl e \<Rightarrow> Inl e
            | Inr idx2 \<Rightarrow>
               if idx1 > idx2 then Inr (SliceRange idx2 (idx1 + 1))
               else if idx1 = idx2 then Inl (EmptySliceError i)
               else Inr (SliceRange idx1 (idx2 + 1)))))"

text \<open>
  The loop \<^verbatim>\<open>for j in range(self.ndim)\<close>. It carries \<^verbatim>\<open>self.axes\<close>, which it
  overwrites axis by axis, and the list of slices. An error leaves the axes as they are
  at that moment.
\<close>

fun limit_loop ::
  "('a::linordered_idom \<times> 'a) list \<Rightarrow> int list \<Rightarrow> nat list \<Rightarrow> 'a list list \<Rightarrow> slice list
     \<Rightarrow> (error \<times> 'a list list) + ('a list list \<times> slice list)" where
  "limit_loop limits axs [] self_axes slices = Inr (self_axes, slices)"
| "limit_loop limits axs (j # js) self_axes slices =
     (if j \<ge> length self_axes then Inl (IndexError, self_axes)
      else
        case (if int j \<in> set axs then
                (let i = index_of axs (int j) in
                   if i \<ge> length limits then Inl IndexError
                   else limit_slice (self_axes ! j) (limits ! i) i)
              else Inr SliceAll) of
          Inl e \<Rightarrow> Inl (e, self_axes)
        | Inr s \<Rightarrow>
            limit_loop limits axs js (self_axes[j := slice1 s (self_axes ! j)]) (slices @ [s]))"

text \<open>
  \<^verbatim>\<open>MeshData.limit(*limits, axes=None)\<close>. The result is the container after a normal
  return (\<open>Inr\<close>), or the exception together with the container as the call left it
  (\<open>Inl\<close>).
\<close>

definition limit ::
  "('a::linordered_idom \<times> 'a) list \<Rightarrow> int list option \<Rightarrow> 'a MeshData
     \<Rightarrow> (error \<times> 'a MeshData) + 'a MeshData" where
  "limit limits axs self =
     (let axs' = as_list (case axs of None \<Rightarrow> map int [0..<ndim self] | Some a \<Rightarrow> a) in
        if length axs' \<noteq> length limits then Inl (ArityError, self)
        else
          case limit_loop limits axs' [0..<ndim self] (axes self) [] of
            Inl (e, axes') \<Rightarrow> Inl (e, self\<lparr>axes := axes'\<rparr>)
          | Inr (axes', slices) \<Rightarrow>
              (case nd_getitem slices (data self) of
                 Inl e \<Rightarrow> Inl (e, self\<lparr>axes := axes'\<rparr>)
               | Inr d \<Rightarrow> Inr (self\<lparr>axes := axes', data := d\<rparr>)))"

subsection \<open>flip\<close>

text \<open>
  The loop \<^verbatim>\<open>for ax in axes\<close> of \<^verbatim>\<open>MeshData.flip\<close>: the axis is replaced by
  its reverse, then the slice of that dimension is set to the reversing one.
\<close>

fun flip_loop ::
  "int list \<Rightarrow> 'a list list \<Rightarrow> slice list
     \<Rightarrow> (error \<times> 'a list list) + ('a list list \<times> slice list)" where
  "flip_loop [] self_axes slices = Inr (self_axes, slices)"
| "flip_loop (ax # rest) self_axes slices =
     (case py_index (length self_axes) ax of
        None \<Rightarrow> Inl (IndexError, self_axes)
      | Some k \<Rightarrow>
          (let self_axes' = self_axes[k := slice1 SliceReverse (self_axes ! k)] in
             case py_index (length slices) ax of
               None \<Rightarrow> Inl (IndexError, self_axes')
             | Some k' \<Rightarrow> flip_loop rest self_axes' (slices[k' := SliceReverse])))"

text \<open>
  Indexing with a list of slices, \<^verbatim>\<open>data[slices]\<close>, as \<^verbatim>\<open>flip\<close> does where
  \<^verbatim>\<open>limit\<close> builds a tuple. NumPy before 1.23 reads a list that holds a slice as the
  tuple of its entries; NumPy from 1.23 on takes the list for an index array and raises
  IndexError. The module fixes no version of NumPy, so which of the two runs is the
  argument \<open>list_as_tuple\<close>.
\<close>

definition nd_getitem_list :: "bool \<Rightarrow> slice list \<Rightarrow> 'a ndarray \<Rightarrow> error + 'a ndarray" where
  "nd_getitem_list list_as_tuple slices a =
     (if list_as_tuple then nd_getitem slices a else Inl IndexError)"

text \<open>
  \<^verbatim>\<open>MeshData.flip(*axes)\<close>. The axes are reversed inside the loop, the data is
  indexed after it: when the indexing raises, the axes stay reversed over data that is
  not.
\<close>

definition flip ::
  "bool \<Rightarrow> int list \<Rightarrow> 'a MeshData \<Rightarrow> (error \<times> 'a MeshData) + 'a MeshData" where
  "flip list_as_tuple axs self =
     (if length axs = 0 then Inr self
      else
        case flip_loop (as_list axs) (axes self) (map (\<lambda>ax. SliceAll) (axes self)) of
          Inl (e, axes') \<Rightarrow> Inl (e, self\<lparr>axes := axes'\<rparr>)
        | Inr (axes', slices) \<Rightarrow>
            (case nd_getitem_list list_as_tuple slices (data self) of
               Inl e \<Rightarrow> Inl (e, self\<lparr>axes := axes'\<rparr>)
             | Inr d \<Rightarrow> Inr (self\<lparr>axes := axes', data := d\<rparr>)))"

subsection \<open>normalize\<close>

text \<open>\<^verbatim>\<open>data.max()\<close>: the largest element; an array without elements raises.\<close>

definition nd_max :: "'a::linorder ndarray \<Rightarrow> error + 'a" where
  "nd_max a = (case nd_buf a of [] \<Rightarrow> Inl EmptySequenceError | x # xs \<Rightarrow> Inr (fold max xs x))"

text \<open>
  \<^verbatim>\<open>MeshData.normalize\<close>: \<^verbatim>\<open>self.data /= self.data.max()\<close>. The elements are
  floating-point numbers, modelled by an ordered field. With a maximum of zero the
  division does not raise: every element \<open>x\<close> is replaced by the inf or nan that
  \<open>x / 0\<close> is in floating point, and the call returns. The field has no such
  values, so \<open>by_zero x\<close>, an argument of the model, stands for what is stored.
\<close>

definition normalize ::
  "('a \<Rightarrow> 'a) \<Rightarrow> 'a::linordered_field MeshData \<Rightarrow> (error \<times> 'a MeshData) + 'a MeshData" where
  "normalize by_zero self =
     (case nd_max (data self) of
        Inl e \<Rightarrow> Inl (e, self)
      | Inr m \<Rightarrow>
          if m = 0
          then Inr (self\<lparr>data := (data self)\<lparr>nd_buf := map by_zero (nd_buf (data self))\<rparr>\<rparr>)
          else Inr (self\<lparr>data := (data self)\<lparr>nd_buf := map (\<lambda>x. x / m) (nd_buf (data self))\<rparr>\<rparr>))"

subsection \<open>interpolate\<close>

text \<open>
  The loop \<^verbatim>\<open>for i in range(self.ndim)\<close> over the list \<^verbatim>\<open>[axis1, axis2]\<close>: a slot
  that is None takes the container's axis. Reading slot \<open>i\<close> of the list raises
  IndexError when the list has no slot \<open>i\<close>.
\<close>

fun fill_targets ::
  "nat list \<Rightarrow> 'a list option list \<Rightarrow> 'a list list \<Rightarrow> error + 'a list option list" where
  "fill_targets [] targets self_axes = Inr targets"
| "fill_targets (i # rest) targets self_axes =
     (if i \<ge> length targets then Inl IndexError
      else
        case targets ! i of
          Some t \<Rightarrow> fill_targets rest targets self_axes
        | None \<Rightarrow>
            if i \<ge> length self_axes then Inl IndexError
            else fill_targets rest (targets[i := Some (self_axes ! i)]) self_axes)"

text \<open>
  \<^verbatim>\<open>np.argsort\<close>: the positions of the elements in ascending order of the elements.
  Among equal elements the model keeps the original order.
\<close>

definition argsort :: "'a::linorder list \<Rightarrow> nat list" where
  "argsort xs = sort_key (\<lambda>i. xs ! i) [0..<length xs]"

text \<open>
  \<^verbatim>\<open>np.take(data, idx, axis=i)\<close>: the positions \<open>idx\<close> along dimension \<open>i\<close>, every
  other dimension whole.
\<close>

definition nd_take :: "'a ndarray \<Rightarrow> nat list \<Rightarrow> nat \<Rightarrow> error + 'a ndarray" where
  "nd_take a idx i =
     (if i \<ge> nd_ndim a then Inl AxisError
      else if list_ex (\<lambda>k. k \<ge> nd_shape a ! i) idx then Inl IndexError
      else let iss = map (\<lambda>n. [0..<n]) (take i (nd_shape a)) @ [idx] in
        Inr \<lparr>nd_shape = map length iss @ drop (Suc i) (nd_shape a),
             nd_buf = gather (nd_shape a) iss (nd_buf a)\<rparr>)"

text \<open>
  The loop \<^verbatim>\<open>for i in range(len(orig_axes))\<close>. \<^verbatim>\<open>orig_axes\<close> is the list
  \<^verbatim>\<open>self.axes\<close> itself, so the sorted axes are written into the container; the data
  being permuted is a copy.
\<close>

fun sort_loop ::
  "nat list \<Rightarrow> 'a::linorder list list \<Rightarrow> 'a ndarray
     \<Rightarrow> (error \<times> 'a list list) + ('a list list \<times> 'a ndarray)" where
  "sort_loop [] orig_axes d = Inr (orig_axes, d)"
| "sort_loop (i # rest) orig_axes d =
     (if i \<ge> length orig_axes then Inl (IndexError, orig_axes)
      else
        let idx = argsort (orig_axes ! i);
            orig_axes' = orig_axes[i := map (\<lambda>k. orig_axes ! i ! k) idx]
        in case nd_take d idx i of
             Inl e \<Rightarrow> Inl (e, orig_axes')
           | Inr d' \<Rightarrow> sort_loop rest orig_axes' d')"

text \<open>
  Modelled from the spec: the interpolator of scipy and \<^verbatim>\<open>lib.build_coords\<close> are not
  among the sources. \<open>grid_interp orig_axes data targets\<close> stands for
  \<^verbatim>\<open>RegularGridInterpolator(tuple(orig_axes), data, bounds_error=False, fill_value=0.0)\<close>
  applied to \<^verbatim>\<open>lib.build_coords(*axes)\<close>: the interpolant of the source grid, evaluated
  on the outer-product grid of the target axes. It is a parameter of \<open>interpolate\<close>.
\<close>

type_synonym 'a grid_interp =
  "'a list list \<Rightarrow> 'a ndarray \<Rightarrow> 'a list list \<Rightarrow> error + 'a ndarray"


text \<open>
  \<^verbatim>\<open>MeshData.interpolate(axis1=None, axis2=None, degree=2, sorted=False)\<close>. A target
  slot that is still None after the first loop (a container of fewer than two dimensions)
  is no coordinate array, and no grid can be evaluated on it: \<open>GridError\<close>.
  \<open>degree\<close> is not used by the method.
\<close>

definition interpolate ::
  "'a::linorder grid_interp \<Rightarrow> 'a list option \<Rightarrow> 'a list option \<Rightarrow> nat \<Rightarrow> bool
     \<Rightarrow> 'a MeshData \<Rightarrow> (error \<times> 'a MeshData) + 'a MeshData" where
  "interpolate grid_interp axis1 axis2 degree is_sorted self =
     (case fill_targets [0..<ndim self] [axis1, axis2] (axes self) of
        Inl e \<Rightarrow> Inl (e, self)
      | Inr targets \<Rightarrow>
          (case (if \<not> is_sorted
                 then sort_loop [0..<length (axes self)] (axes self) (data self)
                 else Inr (axes self, data self)) of
             Inl (e, orig_axes) \<Rightarrow> Inl (e, self\<lparr>axes := orig_axes\<rparr>)
           | Inr (orig_axes, d) \<Rightarrow>
               (case those targets of
                  None \<Rightarrow> Inl (GridError, self\<lparr>axes := orig_axes\<rparr>)
                | Some tg \<Rightarrow>
                    (case grid_interp orig_axes d tg of
                       Inl e \<Rightarrow> Inl (e, self\<lparr>axes := orig_axes\<rparr>)
                     | Inr r \<Rightarrow> Inr (self\<lparr>data := r, axes := tg\<rparr>)))))"

subsection \<open>autolimit\<close>

text \<open>
  Modelled from the spec: \<^verbatim>\<open>lib.marginals\<close> and \<^verbatim>\<open>lib.limit\<close> are not among the
  sources. They are parameters of \<open>autolimit\<close>: the first gives one profile for each
  requested axis, the second a pair of coordinates from an axis, its profile, the
  threshold and the padding.
\<close>

type_synonym 'a lib_marginals = "'a ndarray \<Rightarrow> int list \<Rightarrow> error + 'a list list"

type_synonym 'a lib_limit = "'a list \<Rightarrow> 'a list \<Rightarrow> 'a \<Rightarrow> 'a \<Rightarrow> error + ('a \<times> 'a)"

text \<open>The loop \<^verbatim>\<open>for i, j in enumerate(axes)\<close> that collects the limits.\<close>

fun autolimit_loop ::
  "'a lib_limit \<Rightarrow> 'a \<Rightarrow> 'a \<Rightarrow> (nat \<times> int) list \<Rightarrow> 'a list list \<Rightarrow> 'a list list
     \<Rightarrow> error + ('a \<times> 'a) list" where
  "autolimit_loop lib_limit threshold padding [] self_axes marginals = Inr []"
| "autolimit_loop lib_limit threshold padding ((i, j) # rest) self_axes marginals =
     (case py_index (length self_axes) j of
        None \<Rightarrow> Inl IndexError
      | Some k \<Rightarrow>
          if i \<ge> length marginals then Inl IndexError
          else
            (case lib_limit (self_axes ! k) (marginals ! i) threshold padding of
               Inl e \<Rightarrow> Inl e
             | Inr bounds \<Rightarrow>
                 (case autolimit_loop lib_limit threshold padding rest self_axes marginals of
                    Inl e \<Rightarrow> Inl e
                  | Inr limits \<Rightarrow> Inr (bounds # limits))))"

text \<open>\<^verbatim>\<open>MeshData.autolimit(*axes, threshold=1e-2, padding=0.25)\<close>.\<close>

definition autolimit ::
  "'a lib_marginals \<Rightarrow> 'a lib_limit \<Rightarrow> int list \<Rightarrow> 'a::linordered_idom \<Rightarrow> 'a \<Rightarrow> 'a MeshData
     \<Rightarrow> (error \<times> 'a MeshData) + 'a MeshData" where
  "autolimit lib_marginals lib_limit axs threshold padding self =
     (let axs' = (if length axs = 0 then map int [0..<ndim self] else axs) in
        case lib_marginals (data self) axs' of
          Inl e \<Rightarrow> Inl (e, self)
        | Inr marginals \<Rightarrow>
            (case autolimit_loop lib_limit threshold padding (enumerate 0 axs')
                    (axes self) marginals of
               Inl e \<Rightarrow> Inl (e, self)
             | Inr limits \<Rightarrow> limit limits (Some axs') self))"

section \<open>Object identity\<close>

text \<open>
  Whether two containers share an object is not visible in the records above. Here the
  constructor and \<^verbatim>\<open>copy\<close> are given again over a store of objects: an instance holds
  references, \<^verbatim>\<open>x.copy()\<close> allocates a new object, and an assignment of a reference
  shares the object.
\<close>

type_synonym ref = nat

datatype 'a pyobj = Array "'a ndarray" | RefList "ref list" | StrList "string list"

type_synonym 'a store = "'a pyobj list"

definition alloc :: "'a pyobj \<Rightarrow> 'a store \<Rightarrow> ref \<times> 'a store" where
  "alloc ob h = (length h, h @ [ob])"

definition lookup :: "'a store \<Rightarrow> ref \<Rightarrow> 'a pyobj option" where
  "lookup h r = (if r < length h then Some (h ! r) else None)"

record mesh_refs =
  data_ref :: ref
  axes_ref :: ref
  labels_ref :: ref
  units_ref :: ref

text \<open>\<^verbatim>\<open>[np.array(a).copy() for a in axes]\<close>: a new array for each argument.\<close>

fun copy_arrays :: "ref list \<Rightarrow> 'a store \<Rightarrow> (ref list \<times> 'a store) option" where
  "copy_arrays [] h = Some ([], h)"
| "copy_arrays (r # rs) h =
     (case lookup h r of
        Some (Array a) \<Rightarrow>
          (case alloc (Array a) h of (r', h') \<Rightarrow>
             (case copy_arrays rs h' of
                None \<Rightarrow> None
              | Some (rs', h'') \<Rightarrow> Some (r' # rs', h'')))
      | _ \<Rightarrow> None)"

text \<open>The arrays behind a list of references, for the two checks of the constructor.\<close>

fun arrays_of :: "'a store \<Rightarrow> ref list \<Rightarrow> 'a ndarray list option" where
  "arrays_of h [] = Some []"
| "arrays_of h (r # rs) =
     (case lookup h r of
        Some (Array a) \<Rightarrow> map_option (\<lambda>as. a # as) (arrays_of h rs)
      | _ \<Rightarrow> None)"

text \<open>
  \<^verbatim>\<open>MeshData.__init__\<close> over the store. \<open>None\<close> is an argument that is not an object
  of the expected kind (not modelled further); the two checks raise as before. The data
  and every axis are copied; \<^verbatim>\<open>self.labels = labels\<close> and \<^verbatim>\<open>self.units = units\<close>
  store the reference they are given, and a new list is made only for a missing argument.
\<close>

definition init_refs ::
  "ref \<Rightarrow> ref list \<Rightarrow> ref option \<Rightarrow> ref option \<Rightarrow> 'a store
     \<Rightarrow> (error + mesh_refs \<times> 'a store) option" where
  "init_refs d axs lbls unts h =
     (case lookup h d of
        Some (Array a) \<Rightarrow>
          (case alloc (Array a) h of (d', h1) \<Rightarrow>
             (case copy_arrays axs h1 of
                None \<Rightarrow> None
              | Some (axs', h2) \<Rightarrow>
                  (case alloc (RefList axs') h2 of (al, h3) \<Rightarrow>
                     (case arrays_of h3 axs' of
                        None \<Rightarrow> None
                      | Some arrs \<Rightarrow>
                          if nd_ndim a \<noteq> length axs' then Some (Inl AxesCountError)
                          else if nd_shape a \<noteq> map (\<lambda>ax. prod_list (nd_shape ax)) arrs
                          then Some (Inl AxesShapeError)
                          else
                            (case (case lbls of
                                     None \<Rightarrow> alloc (StrList (map (\<lambda>ax. '''') axs')) h3
                                   | Some l \<Rightarrow> (l, h3)) of (l', h4) \<Rightarrow>
                               (case (case unts of
                                        None \<Rightarrow> alloc (StrList (map (\<lambda>ax. '''') axs')) h4
                                      | Some u \<Rightarrow> (u, h4)) of (u', h5) \<Rightarrow>
                                  Some (Inr (\<lparr>data_ref = d', axes_ref = al,
                                              labels_ref = l', units_ref = u'\<rparr>, h5))))))))
      | _ \<Rightarrow> None)"

text \<open>
  \<^verbatim>\<open>MeshData.copy\<close> over the store:
  \<^verbatim>\<open>MeshData(self.data, *self.axes, labels=self.labels, units=self.units)\<close>.
\<close>

definition copy_refs :: "mesh_refs \<Rightarrow> 'a store \<Rightarrow> (error + mesh_refs \<times> 'a store) option" where
  "copy_refs self h =
     (case lookup h (axes_ref self) of
        Some (RefList axs) \<Rightarrow>
          init_refs (data_ref self) axs (Some (labels_ref self)) (Some (units_ref self)) h
      | _ \<Rightarrow> None)"

text \<open>A caller's \<^verbatim>\<open>lst[i] = v\<close> on a list of strings, and reading the list.\<close>

definition list_setitem :: "ref \<Rightarrow> nat \<Rightarrow> string \<Rightarrow> 'a store \<Rightarrow> (error + 'a store) option" where
  "list_setitem r i v h =
     (case lookup h r of
        Some (StrList l) \<Rightarrow>
          if i < length l then Some (Inr (h[r := StrList (l[i := v])])) else Some (Inl IndexError)
      | _ \<Rightarrow> None)"

definition strings_at :: "'a store \<Rightarrow> ref \<Rightarrow> string list option" where
  "strings_at h r = (case lookup h r of Some (StrList l) \<Rightarrow> Some l | _ \<Rightarrow> None)"

section \<open>Verified properties\<close>

subsection \<open>interpolate on more than two dimensions\<close>

lemma fill_targets_Inr:
  "fill_targets is targets sa = Inr t \<Longrightarrow> i \<in> set is \<Longrightarrow> i < length targets"
  by (induction "is" targets sa rule: fill_targets.induct) (auto split: if_splits option.splits)

lemma fill_targets_Inl:
  "fill_targets is targets sa = Inl e \<Longrightarrow> e = IndexError"
  by (induction "is" targets sa rule: fill_targets.induct) (auto split: if_splits option.splits)

text \<open>
  C10. On a container of more than two dimensions \<open>interpolate\<close> raises IndexError,
  whatever its arguments and whatever the interpolator, and leaves the container as it
  was: the list of targets has the two slots \<^verbatim>\<open>axis1\<close> and \<^verbatim>\<open>axis2\<close>, and the
  first loop reads slot 2. So the method never returns normally on such a container.
\<close>

theorem interpolate_raises_beyond_two_dimensions:
  assumes "ndim self > 2"
  shows "interpolate gi axis1 axis2 degree is_sorted self = Inl (IndexError, self)"
proof (cases "fill_targets [0..<ndim self] [axis1, axis2] (axes self)")
  case (Inl e)
  then show ?thesis
    using fill_targets_Inl[OF Inl] by (simp add: interpolate_def)
next
  case (Inr t)
  have "2 \<in> set [0..<ndim self]"
    using assms by simp
  from fill_targets_Inr[OF Inr this] show ?thesis
    by simp
qed

theorem interpolate_raises_beyond_two_dimensions_witness:
  "2 < ndim \<lparr>data = \<lparr>nd_shape = [1, 1, 1], nd_buf = [0::real]\<rparr>,
              axes = [[0], [0], [0]], labels = [], units = []\<rparr> \<and>
   interpolate (\<lambda>a d t. Inl CollaboratorError) None None 2 False
       \<lparr>data = \<lparr>nd_shape = [1, 1, 1], nd_buf = [0::real]\<rparr>,
          axes = [[0], [0], [0]], labels = [], units = []\<rparr>
     = Inl (IndexError,
         \<lparr>data = \<lparr>nd_shape = [1, 1, 1], nd_buf = [0::real]\<rparr>,
            axes = [[0], [0], [0]], labels = [], units = []\<rparr>)"
  using interpolate_raises_beyond_two_dimensions
    [of "\<lparr>data = \<lparr>nd_shape = [1, 1, 1], nd_buf = [0::real]\<rparr>,
            axes = [[0], [0], [0]], labels = [], units = []\<rparr>"
        "\<lambda>a d t. Inl CollaboratorError" None None 2 False]
  by (simp add: ndim_def nd_ndim_def)

subsection \<open>Default labels and units\<close>

lemma init_default_labels:
  "init d axs None None = Inr m \<Longrightarrow>
     labels m = replicate (ndim m) '''' \<and> units m = replicate (ndim m) ''''"
  by (auto simp: init_def ndim_def map_replicate_const split: if_splits)

text \<open>
  C8. The docstring of the constructor asks for one label more than there are axes, the
  last one for the data. The defaults are built with one empty string for each axis: a
  two-dimensional container gets two labels and two units, not three.
\<close>

theorem init_default_labels_one_per_axis:
  "init \<lparr>nd_shape = [2, 2], nd_buf = [0, 0, 0, 0::real]\<rparr> [[0, 1], [0, 1]] None None
     = Inr \<lparr>data = \<lparr>nd_shape = [2, 2], nd_buf = [0, 0, 0, 0]\<rparr>, axes = [[0, 1], [0, 1]],
            labels = ['''', ''''], units = ['''', '''']\<rparr>
   \<and> ndim \<lparr>data = \<lparr>nd_shape = [2, 2], nd_buf = [0, 0, 0, 0::real]\<rparr>,
             axes = [[0, 1], [0, 1]], labels = ['''', ''''], units = ['''', '''']\<rparr> + 1 = 3"
  by (simp add: init_def nd_ndim_def ndim_def)

subsection \<open>normalize\<close>

lemma nd_max_Max:
  assumes "nd_buf a \<noteq> []"
  shows "nd_max a = Inr (Max (set (nd_buf a)))"
proof (cases "nd_buf a")
  case Nil
  then show ?thesis using assms by simp
next
  case (Cons x xs)
  have "fold max xs x = Max (set (x # xs))"
    by (rule Max.set_eq_fold[symmetric])
  then show ?thesis using Cons by (simp add: nd_max_def)
qed

text \<open>
  C9. On data that has an element and a maximum other than zero, \<open>normalize\<close> returns
  the container with every element multiplied by the reciprocal of the maximum, and
  nothing else changed. On the data \<^verbatim>\<open>[[2,4],[6,8]]\<close> every element is multiplied by
  1/8 and the maximum of the result is 1.
\<close>

theorem normalize_scales_by_reciprocal_of_max:
  fixes self :: "'a::linordered_field MeshData"
  shows
    "(nd_buf (data self) \<noteq> [] \<and> Max (set (nd_buf (data self))) \<noteq> 0 \<longrightarrow>
        normalize by_zero self =
          Inr (self\<lparr>data := (data self)\<lparr>nd_buf :=
                 map (\<lambda>x. x * (1 / Max (set (nd_buf (data self))))) (nd_buf (data self))\<rparr>\<rparr>))
     \<and> normalize by_zero \<lparr>data = \<lparr>nd_shape = [2, 2], nd_buf = [2, 4, 6, 8::'a]\<rparr>,
                    axes = ax, labels = l, units = u\<rparr>
         = Inr \<lparr>data = \<lparr>nd_shape = [2, 2],
                         nd_buf = [2 * (1 / 8), 4 * (1 / 8), 6 * (1 / 8), 8 * (1 / 8)]\<rparr>,
                axes = ax, labels = l, units = u\<rparr>
     \<and> nd_max \<lparr>nd_shape = [2, 2],
                nd_buf = [2 * (1 / 8), 4 * (1 / 8), 6 * (1 / 8), 8 * (1 / 8::'a)]\<rparr> = Inr 1"
proof (intro conjI impI)
  assume "nd_buf (data self) \<noteq> [] \<and> Max (set (nd_buf (data self))) \<noteq> 0"
  then show "normalize by_zero self =
      Inr (self\<lparr>data := (data self)\<lparr>nd_buf :=
             map (\<lambda>x. x * (1 / Max (set (nd_buf (data self))))) (nd_buf (data self))\<rparr>\<rparr>)"
    by (simp add: normalize_def nd_max_Max)
next
  show "normalize by_zero \<lparr>data = \<lparr>nd_shape = [2, 2], nd_buf = [2, 4, 6, 8::'a]\<rparr>,
                    axes = ax, labels = l, units = u\<rparr>
      = Inr \<lparr>data = \<lparr>nd_shape = [2, 2],
                      nd_buf = [2 * (1 / 8), 4 * (1 / 8), 6 * (1 / 8), 8 * (1 / 8)]\<rparr>,
             axes = ax, labels = l, units = u\<rparr>"
    by (simp add: normalize_def nd_max_def)
next
  show "nd_max \<lparr>nd_shape = [2, 2],
                nd_buf = [2 * (1 / 8), 4 * (1 / 8), 6 * (1 / 8), 8 * (1 / 8::'a)]\<rparr> = Inr 1"
    by (simp add: nd_max_def)
qed

theorem normalize_scales_by_reciprocal_of_max_witness:
  "nd_buf (data \<lparr>data = \<lparr>nd_shape = [3], nd_buf = [1, 4, 2::real]\<rparr>,
                 axes = [[0, 1, 2]], labels = [], units = []\<rparr>) \<noteq> []
   \<and> Max (set [1, 4, 2::real]) \<noteq> 0
   \<and> normalize (\<lambda>x. 0) \<lparr>data = \<lparr>nd_shape = [3], nd_buf = [1, 4, 2::real]\<rparr>,
                  axes = [[0, 1, 2]], labels = [], units = []\<rparr>
       = Inr \<lparr>data = \<lparr>nd_shape = [3], nd_buf = [1 / 4, 1, 1 / 2]\<rparr>,
              axes = [[0, 1, 2]], labels = [], units = []\<rparr>"
  using normalize_scales_by_reciprocal_of_max
    [of "\<lparr>data = \<lparr>nd_shape = [3], nd_buf = [1, 4, 2::real]\<rparr>,
           axes = [[0, 1, 2]], labels = [], units = []\<rparr>" "\<lambda>x. 0"]
  by simp

subsection \<open>Blocks of the buffer\<close>

lemma concat_blocks:
  "length buf = n * p \<Longrightarrow> concat (map (\<lambda>i. take p (drop (i * p) buf)) [0..<n]) = buf"
proof (induction n arbitrary: buf)
  case 0
  then show ?case by simp
next
  case (Suc n)
  have upt: "[0..<Suc n] = 0 # map Suc [0..<n]"
    by (simp add: upt_conv_Cons map_Suc_upt del: upt_Suc)
  have shift: "take p (drop (Suc i * p) buf) = take p (drop (i * p) (drop p buf))" for i
    by (simp add: add.commute)
  have rest: "concat (map (\<lambda>i. take p (drop (i * p) (drop p buf))) [0..<n]) = drop p buf"
    using Suc.prems by (intro Suc.IH) simp
  have "concat (map (\<lambda>i. take p (drop (i * p) buf)) [0..<Suc n])
      = take p buf @ concat (map (\<lambda>i. take p (drop (Suc i * p) buf)) [0..<n])"
    unfolding upt by (simp add: comp_def)
  also have "\<dots> = take p buf @ drop p buf"
    unfolding shift rest ..
  finally show ?case by simp
qed

lemma block_length:
  "length buf = n * p \<Longrightarrow> i < n \<Longrightarrow> length (take p (drop (i * p) buf)) = p"
proof -
  assume len: "length buf = n * p" and "i < n"
  then have "Suc i * p \<le> n * p"
    by (simp add: Suc_leI mult_le_mono1 del: mult_Suc)
  then show ?thesis
    using len by simp
qed

lemma gather_whole:
  "length buf = prod_list ns \<Longrightarrow> gather ns (map (\<lambda>n. [0..<n]) ns) buf = buf"
proof (induction ns arbitrary: buf)
  case Nil
  then show ?case by simp
next
  case (Cons n ns)
  let ?p = "prod_list ns"
  have "map (\<lambda>i. gather ns (map (\<lambda>n. [0..<n]) ns) (take ?p (drop (i * ?p) buf))) [0..<n]
      = map (\<lambda>i. take ?p (drop (i * ?p) buf)) [0..<n]"
  proof (rule map_cong[OF refl])
    fix i assume "i \<in> set [0..<n]"
    then have "length (take ?p (drop (i * ?p) buf)) = ?p"
      using Cons.prems by (intro block_length[of _ n]) simp_all
    then show "gather ns (map (\<lambda>n. [0..<n]) ns) (take ?p (drop (i * ?p) buf))
        = take ?p (drop (i * ?p) buf)"
      by (rule Cons.IH)
  qed
  note blocks = this
  have "gather (n # ns) (map (\<lambda>n. [0..<n]) (n # ns)) buf
      = concat (map (\<lambda>i. gather ns (map (\<lambda>n. [0..<n]) ns) (take ?p (drop (i * ?p) buf))) [0..<n])"
    by simp
  also have "\<dots> = concat (map (\<lambda>i. take ?p (drop (i * ?p) buf)) [0..<n])"
    by (simp only: blocks)
  also have "\<dots> = buf"
    using Cons.prems by (simp add: concat_blocks)
  finally show ?case .
qed

lemma gather_rows:
  assumes "length buf = n * prod_list ns" and "\<forall>i\<in>set is. i < n"
  shows "gather (n # ns) (is # map (\<lambda>n. [0..<n]) ns) buf
      = concat (map (\<lambda>i. take (prod_list ns) (drop (i * prod_list ns) buf)) is)"
proof -
  let ?p = "prod_list ns"
  have "map (\<lambda>i. gather ns (map (\<lambda>n. [0..<n]) ns) (take ?p (drop (i * ?p) buf))) is
      = map (\<lambda>i. take ?p (drop (i * ?p) buf)) is"
  proof (rule map_cong[OF refl])
    fix i assume "i \<in> set is"
    then have "length (take ?p (drop (i * ?p) buf)) = ?p"
      using assms by (intro block_length[of _ n]) simp_all
    then show "gather ns (map (\<lambda>n. [0..<n]) ns) (take ?p (drop (i * ?p) buf))
        = take ?p (drop (i * ?p) buf)"
      by (rule gather_whole)
  qed
  then show ?thesis
    by (simp only: gather.simps)
qed

subsection \<open>limit: order of the bounds\<close>

lemma nearest_Nil: "nearest [] x = Inl EmptySequenceError"
  by (simp add: nearest_def)

lemma nearest_Cons: "nearest (a # ax) x = Inr (argmin_scan 0 \<bar>a - x\<bar> 1 (map (\<lambda>a. \<bar>a - x\<bar>) ax))"
  by (simp add: nearest_def)

lemma limit_slice_swap: "limit_slice ax (x2, x1) i = limit_slice ax (x1, x2) i"
  by (cases ax) (auto simp: limit_slice_def nearest_Nil nearest_Cons)

lemma limit_slice_prod_swap: "limit_slice ax (prod.swap p) i = limit_slice ax p i"
  by (cases p) (simp add: limit_slice_swap)

lemma limit_loop_swap_at:
  "limit_loop (ls[k := prod.swap (ls ! k)]) axs js sa sl = limit_loop ls axs js sa sl"
proof (induction js arbitrary: sa sl)
  case Nil
  then show ?case by simp
next
  case (Cons j js)
  have "limit_slice (sa ! j) (ls[k := prod.swap (ls ! k)] ! i) i = limit_slice (sa ! j) (ls ! i) i"
    if "i < length ls" for i
    using that by (cases "i = k") (simp_all add: limit_slice_prod_swap)
  then show ?case
    using Cons.IH by (auto simp: Let_def split: sum.splits)
qed

text \<open>
  C3. Exchanging the two bounds of any one pair of limits changes nothing: the call
  returns the same container, or raises the same error and leaves the same container.
\<close>

theorem limit_bounds_order_irrelevant:
  "limit (ls[k := prod.swap (ls ! k)]) axs self = limit ls axs self"
  by (simp add: limit_def limit_loop_swap_at Let_def)

subsection \<open>limit: the 5 by 5 scenario\<close>

text \<open>
  C2. The container with data of shape (5,5) and the axes \<^verbatim>\<open>[0,1,2,3,4]\<close> and
  \<^verbatim>\<open>[4,3,2,1,0]\<close>: \<^verbatim>\<open>limit((1,3), axes=[0])\<close> returns with data of shape (3,5),
  holding rows 1 to 3 of the original, the first axis \<^verbatim>\<open>[1,2,3]\<close> and the second
  axis, the labels and the units unchanged.
\<close>

theorem limit_scenario_5x5:
  fixes buf :: "'a::linordered_idom list"
  assumes "length buf = 25"
  shows "limit [(1, 3)] (Some [0])
           \<lparr>data = \<lparr>nd_shape = [5, 5], nd_buf = buf\<rparr>,
              axes = [[0, 1, 2, 3, 4], [4, 3, 2, 1, 0]], labels = l, units = u\<rparr>
         = Inr \<lparr>data = \<lparr>nd_shape = [3, 5],
                         nd_buf = take 5 (drop 5 buf) @ take 5 (drop 10 buf) @ take 5 (drop 15 buf)\<rparr>,
                axes = [[1, 2, 3], [4, 3, 2, 1, 0]], labels = l, units = u\<rparr>"
proof -
  have up: "[Suc 0..<4] = [1, 2, 3]" "[0..<5] = [0, 1, 2, 3, 4]"
    by (simp_all add: upt_conv_Cons)
  have loop: "limit_loop [(1, 3::'a)] [0] [0, Suc 0] [[0, 1, 2, 3, 4], [4, 3, 2, 1, 0]] []
      = Inr ([[1, 2, 3], [4, 3, 2, 1, 0]], [SliceRange (Suc 0) 4, SliceAll])"
    by (simp add: limit_slice_def nearest_def slice1_def up)
  have "gather [5, 5] [[1, 2, 3], [0..<5]] buf
      = concat (map (\<lambda>i. take 5 (drop (i * 5) buf)) [1, 2, 3])"
    using gather_rows[of buf 5 "[5]" "[1, 2, 3]"] assms by (simp del: gather.simps)
  then have get: "nd_getitem [SliceRange (Suc 0) 4, SliceAll] \<lparr>nd_shape = [5, 5], nd_buf = buf\<rparr>
      = Inr \<lparr>nd_shape = [3, 5],
               nd_buf = take 5 (drop 5 buf) @ take 5 (drop 10 buf) @ take 5 (drop 15 buf)\<rparr>"
    by (simp add: nd_getitem_def nd_ndim_def up(1) del: gather.simps upt_Suc)
  have "[0..<ndim \<lparr>data = \<lparr>nd_shape = [5, 5], nd_buf = buf\<rparr>,
              axes = [[0, 1, 2, 3, 4], [4, 3, 2, 1, 0]], labels = l, units = u\<rparr>] = [0, 1]"
    by (simp add: ndim_def nd_ndim_def)
  then show ?thesis
    by (simp add: limit_def as_list_def loop get del: limit_loop.simps)
qed


theorem limit_scenario_5x5_witness:
  "length [0, 1, 2, 3, 4, 5, 6, 7, 8, 9, 10, 11, 12, 13, 14, 15, 16, 17, 18, 19, 20, 21, 22,
           23, 24::int] = 25
   \<and> limit [(1, 3)] (Some [0])
         \<lparr>data = \<lparr>nd_shape = [5, 5],
                   nd_buf = [0, 1, 2, 3, 4, 5, 6, 7, 8, 9, 10, 11, 12, 13, 14, 15, 16, 17, 18,
                             19, 20, 21, 22, 23, 24::int]\<rparr>,
            axes = [[0, 1, 2, 3, 4], [4, 3, 2, 1, 0]], labels = [], units = []\<rparr>
       = Inr \<lparr>data = \<lparr>nd_shape = [3, 5],
                       nd_buf = [5, 6, 7, 8, 9, 10, 11, 12, 13, 14, 15, 16, 17, 18, 19]\<rparr>,
              axes = [[1, 2, 3], [4, 3, 2, 1, 0]], labels = [], units = []\<rparr>"
  using limit_scenario_5x5
    [of "[0, 1, 2, 3, 4, 5, 6, 7, 8, 9, 10, 11, 12, 13, 14, 15, 16, 17, 18, 19, 20, 21, 22,
          23, 24::int]" "[]" "[]"]
  by simp

subsection \<open>copy\<close>

lemma copy_refs_shares_labels_units:
  "copy_refs self h = Some (Inr (c, h')) \<Longrightarrow>
     labels_ref c = labels_ref self \<and> units_ref c = units_ref self"
  by (auto simp: copy_refs_def init_refs_def alloc_def
      split: option.splits pyobj.splits if_splits prod.splits)

lemma copy_refs_new_data:
  "copy_refs self h = Some (Inr (c, h')) \<Longrightarrow> data_ref c = length h"
  by (auto simp: copy_refs_def init_refs_def alloc_def
      split: option.splits pyobj.splits if_splits prod.splits)

text \<open>
  C7. A container is built from a caller's arrays with default labels and units, and then
  copied. The copy has a data array and an axes list of its own, and the very labels and
  units lists of the original: after \<^verbatim>\<open>c.labels[0] = "time"\<close> on the copy, the
  labels of the original read \<^verbatim>\<open>["time", ""]\<close>.
\<close>

theorem copy_shares_labels_and_units:
  "(case init_refs 0 [1, 2] None None
           [Array \<lparr>nd_shape = [2, 2], nd_buf = [1, 2, 3, 4::real]\<rparr>,
            Array \<lparr>nd_shape = [2], nd_buf = [0, 1]\<rparr>,
            Array \<lparr>nd_shape = [2], nd_buf = [0, 1]\<rparr>] of
      Some (Inr (m, h1)) \<Rightarrow>
        (case copy_refs m h1 of
           Some (Inr (c, h2)) \<Rightarrow>
             data_ref c \<noteq> data_ref m \<and> axes_ref c \<noteq> axes_ref m
             \<and> labels_ref c = labels_ref m \<and> units_ref c = units_ref m
             \<and> strings_at h2 (labels_ref m) = Some ['''', '''']
             \<and> (case list_setitem (labels_ref c) 0 ''time'' h2 of
                  Some (Inr h3) \<Rightarrow> strings_at h3 (labels_ref m) = Some [''time'', '''']
                | _ \<Rightarrow> False)
         | _ \<Rightarrow> False)
    | _ \<Rightarrow> False)"
  by (simp add: init_refs_def copy_refs_def alloc_def lookup_def list_setitem_def nd_ndim_def
      strings_at_def)

subsection \<open>Gathering twice\<close>

lemma gather_length:
  "list_all2 (\<lambda>is n. \<forall>i\<in>set is. i < n) iss ns \<Longrightarrow> length buf = prod_list ns \<Longrightarrow>
     length (gather ns iss buf) = prod_list (map length iss)"
proof (induction iss ns arbitrary: buf rule: list_all2_induct)
  case Nil
  then show ?case by simp
next
  case (Cons "is" iss n ns)
  let ?p = "prod_list ns"
  have "map (\<lambda>i. length (gather ns iss (take ?p (drop (i * ?p) buf)))) is
      = map (\<lambda>i. prod_list (map length iss)) is"
  proof (rule map_cong[OF refl])
    fix i assume "i \<in> set is"
    then have "i < n" using Cons.hyps by simp
    then have "length (take ?p (drop (i * ?p) buf)) = ?p"
      using Cons.prems by (intro block_length[of _ n]) simp_all
    then show "length (gather ns iss (take ?p (drop (i * ?p) buf))) = prod_list (map length iss)"
      by (rule Cons.IH)
  qed
  note lens = this
  have "length (gather (n # ns) (is # iss) buf)
      = sum_list (map (\<lambda>i. length (gather ns iss (take ?p (drop (i * ?p) buf)))) is)"
    by (simp add: length_concat comp_def)
  also have "\<dots> = sum_list (map (\<lambda>i. prod_list (map length iss)) is)"
    by (simp only: lens)
  also have "\<dots> = prod_list (map length (is # iss))"
    by (simp add: sum_list_triv)
  finally show ?case .
qed




subsection \<open>flip\<close>

lemma slice1_all: "slice1 SliceAll xs = xs"
  by (simp add: slice1_def map_nth)

lemma slice1_reverse: "slice1 SliceReverse xs = rev xs"
proof -
  have "map (\<lambda>i. xs ! i) (rev [0..<length xs]) = rev (map (\<lambda>i. xs ! i) [0..<length xs])"
    by (simp only: rev_map)
  then show ?thesis
    by (simp add: slice1_def map_nth)
qed

lemma py_index_less: "py_index n j = Some k \<Longrightarrow> k < n"
  by (auto simp: py_index_def split: if_splits)


lemma slice_indices_less: "i \<in> set (slice_indices n s) \<Longrightarrow> i < n"
  by (cases s) auto

lemma slice_indices_in_range:
  "length sl = length ns \<Longrightarrow>
     list_all2 (\<lambda>is n. \<forall>i\<in>set is. i < n) (map2 slice_indices ns sl) ns"
proof (induction ns arbitrary: sl)
  case Nil
  then show ?case by simp
next
  case (Cons n ns)
  then obtain s sl' where "sl = s # sl'" by (cases sl) auto
  then show ?case
    using Cons by (auto dest: slice_indices_less)
qed













subsection \<open>The shape invariant\<close>


lemma length_slice1: "length (slice1 s xs) = length (slice_indices (length xs) s)"
  by (simp add: slice1_def)

lemma limit_loop_lengths:
  assumes "limit_loop ls axs [k..<n] sa sl = Inr (sa', sl')"
    and "length sl = k" and "length sa = length ns" and "k \<le> n" and "n \<le> length ns"
    and "\<forall>j<k. length (sa ! j) = length (slice_indices (ns ! j) (sl ! j))"
    and "\<forall>j\<ge>k. j < length ns \<longrightarrow> length (sa ! j) = ns ! j"
  shows "length sl' = n \<and> length sa' = length ns
     \<and> (\<forall>j<n. length (sa' ! j) = length (slice_indices (ns ! j) (sl' ! j)))"
  using assms
proof (induction "n - k" arbitrary: k sa sl)
  case 0
  then show ?case by simp
next
  case (Suc m)
  then have kn: "k < n" by simp
  then have upt: "[k..<n] = k # [Suc k..<n]"
    by (simp add: upt_conv_Cons)
  have ksa: "k < length sa"
    using kn Suc.prems by simp
  from Suc.prems(1) obtain s where
    rec: "limit_loop ls axs [Suc k..<n] (sa[k := slice1 s (sa ! k)]) (sl @ [s]) = Inr (sa', sl')"
    unfolding upt using ksa by (auto simp: Let_def split: sum.splits if_splits)
  let ?sa = "sa[k := slice1 s (sa ! k)]"
  let ?sl = "sl @ [s]"
  have a: "\<forall>j<Suc k. length (?sa ! j) = length (slice_indices (ns ! j) (?sl ! j))"
  proof (intro allI impI)
    fix j assume "j < Suc k"
    then consider "j < k" | "j = k" by linarith
    then show "length (?sa ! j) = length (slice_indices (ns ! j) (?sl ! j))"
    proof cases
      case 1
      then show ?thesis
        using Suc.prems(2,6) by (simp add: nth_append)
    next
      case 2
      have "length (sa ! k) = ns ! k"
        using Suc.prems(7) ksa Suc.prems(3) by simp
      then show ?thesis
        using 2 ksa Suc.prems(2) by (simp add: length_slice1 nth_append)
    qed
  qed
  have b: "\<forall>j\<ge>Suc k. j < length ns \<longrightarrow> length (?sa ! j) = ns ! j"
    using Suc.prems(7) by simp
  show ?case
  proof (rule Suc.hyps(1)[OF _ rec _ _ _ _ a b])
    show "m = n - Suc k" using Suc.hyps(2) by simp
    show "length ?sl = Suc k" using Suc.prems(2) by simp
    show "length ?sa = length ns" using Suc.prems(3) by simp
    show "Suc k \<le> n" using kn by simp
    show "n \<le> length ns" using Suc.prems(5) .
  qed
qed



lemma flip_loop_lengths:
  "flip_loop axs sa sl = Inr (sa', sl') \<Longrightarrow> length sl = length sa \<Longrightarrow>
   set sl \<subseteq> {SliceAll, SliceReverse} \<Longrightarrow>
     map length sa' = map length sa \<and> length sl' = length sa \<and> set sl' \<subseteq> {SliceAll, SliceReverse}"
proof (induction axs arbitrary: sa sl)
  case Nil
  then show ?case by simp
next
  case (Cons ax rest)
  from Cons.prems(1) obtain k k' where k: "py_index (length sa) ax = Some k"
    and k': "py_index (length sl) ax = Some k'"
    and rec: "flip_loop rest (sa[k := slice1 SliceReverse (sa ! k)]) (sl[k' := SliceReverse]) = Inr (sa', sl')"
    by (auto simp: Let_def split: option.splits)
  have "set (sl[k' := SliceReverse]) \<subseteq> {SliceAll, SliceReverse}"
    using set_update_subset_insert[of sl k' SliceReverse] Cons.prems(3) by auto
  with Cons.IH[OF rec] Cons.prems(2)
  have "map length sa' = map length (sa[k := slice1 SliceReverse (sa ! k)])"
    and rest: "length sl' = length sa" "set sl' \<subseteq> {SliceAll, SliceReverse}"
    by simp_all
  moreover have "map length (sa[k := slice1 SliceReverse (sa ! k)]) = map length sa"
    using py_index_less[OF k] by (simp add: map_update slice1_reverse list_update_same_conv)
  ultimately show ?case by simp
qed
















subsection \<open>limit: the empty slice\<close>

lemma index_of_less: "y \<in> set xs \<Longrightarrow> index_of xs y < length xs"
  by (induction xs) auto

lemma limit_slice_nonempty:
  assumes "ax \<noteq> []"
  shows "(nearest ax x1 = nearest ax x2 \<and> limit_slice ax (x1, x2) i = Inl (EmptySliceError i))
       \<or> (nearest ax x1 \<noteq> nearest ax x2 \<and> (\<exists>s. limit_slice ax (x1, x2) i = Inr s))"
proof -
  from assms obtain a as where "ax = a # as" by (cases ax) auto
  then show ?thesis
    by (auto simp: limit_slice_def nearest_Cons)
qed

lemma limit_loop_empty_slice_iff:
  assumes "distinct js"
    and "\<forall>j\<in>set js. j < length sa \<and> sa ! j \<noteq> []"
    and "\<forall>j\<in>set js. int j \<in> set req \<longrightarrow> index_of req (int j) < length ls"
  shows "(\<exists>i s. limit_loop ls req js sa sl = Inl (EmptySliceError i, s))
     \<longleftrightarrow> (\<exists>j\<in>set js. int j \<in> set req
            \<and> (case ls ! index_of req (int j) of
                 (x1, x2) \<Rightarrow> nearest (sa ! j) x1 = nearest (sa ! j) x2))"
  using assms
proof (induction js arbitrary: sa sl)
  case Nil
  then show ?case by simp
next
  case (Cons j js)
  let ?deg = "\<lambda>sa j. int j \<in> set req
      \<and> (case ls ! index_of req (int j) of (x1, x2) \<Rightarrow> nearest (sa ! j) x1 = nearest (sa ! j) x2)"
  have j: "j < length sa" "sa ! j \<noteq> []" and jjs: "j \<notin> set js" "distinct js"
    using Cons.prems by simp_all
  have step: "(\<exists>i s. limit_loop ls req js (sa[j := v]) sl' = Inl (EmptySliceError i, s))
      \<longleftrightarrow> (\<exists>j'\<in>set js. ?deg sa j')" for v sl'
  proof -
    have same: "sa[j := v] ! j' = sa ! j'" if "j' \<in> set js" for j'
      using that jjs(1) by (metis nth_list_update_neq)
    have "(\<exists>i s. limit_loop ls req js (sa[j := v]) sl' = Inl (EmptySliceError i, s))
        \<longleftrightarrow> (\<exists>j'\<in>set js. ?deg (sa[j := v]) j')"
      using Cons.prems jjs same by (intro Cons.IH) simp_all
    then show ?thesis
      using same by (auto split: prod.splits)
  qed
  show ?case
  proof (cases "int j \<in> set req")
    case False
    then show ?thesis
      using j step[of "slice1 SliceAll (sa ! j)" "sl @ [SliceAll]"] by simp
  next
    case True
    then have i: "index_of req (int j) < length ls"
      using Cons.prems(3) by simp
    obtain x1 x2 where p: "ls ! index_of req (int j) = (x1, x2)"
      by (cases "ls ! index_of req (int j)")
    from limit_slice_nonempty[OF j(2), of x1 x2 "index_of req (int j)"]
    show ?thesis
    proof (elim disjE conjE exE)
      assume "nearest (sa ! j) x1 = nearest (sa ! j) x2"
        and "limit_slice (sa ! j) (x1, x2) (index_of req (int j)) = Inl (EmptySliceError (index_of req (int j)))"
      then show ?thesis
        using True i j p by (auto simp: Let_def)
    next
      fix s
      assume ne: "nearest (sa ! j) x1 \<noteq> nearest (sa ! j) x2"
        and s: "limit_slice (sa ! j) (x1, x2) (index_of req (int j)) = Inr s"
      have "(\<exists>i s'. limit_loop ls req (j # js) sa sl = Inl (EmptySliceError i, s'))
          \<longleftrightarrow> (\<exists>i s'. limit_loop ls req js (sa[j := slice1 s (sa ! j)]) (sl @ [s]) = Inl (EmptySliceError i, s'))"
        using True i j p s by (simp add: Let_def)
      also have "\<dots> \<longleftrightarrow> (\<exists>j'\<in>set js. ?deg sa j')"
        by (rule step)
      also have "\<dots> \<longleftrightarrow> (\<exists>j'\<in>set (j # js). ?deg sa j')"
        using ne p by simp
      finally show ?thesis .
    qed
  qed
qed

lemma nd_getitem_Inl: "nd_getitem sl a = Inl e \<Longrightarrow> e = IndexError"
  by (auto simp: nd_getitem_def Let_def split: if_splits)

lemma limit_empty_slice_iff_loop:
  assumes "length (as_list (case axs of None \<Rightarrow> map int [0..<ndim self] | Some a \<Rightarrow> a)) = length ls"
  shows "(\<exists>i s. limit ls axs self = Inl (EmptySliceError i, s))
     \<longleftrightarrow> (\<exists>i s. limit_loop ls (as_list (case axs of None \<Rightarrow> map int [0..<ndim self] | Some a \<Rightarrow> a))
                  [0..<ndim self] (axes self) [] = Inl (EmptySliceError i, s))"
  using assms
  by (auto simp: limit_def Let_def split: sum.splits prod.splits dest: nd_getitem_Inl)

text \<open>
  C4. Take a container that satisfies the constructor's checks and has no empty axis, and
  a call of \<open>limit\<close> with as many pairs as requested axes. The call raises
  EmptySliceError exactly when, on some requested axis of the container, the nearest
  sample of the first bound and the nearest sample of the second bound are the same
  position. In particular it raises it when the pair of a requested axis is \<open>(x, x)\<close>.
\<close>

theorem limit_raises_empty_slice_iff_bounds_coincide:
  fixes self :: "'a::linordered_idom MeshData"
  assumes "shape_inv self"
    and "[] \<notin> set (axes self)"
    and "req = as_list (case axs of None \<Rightarrow> map int [0..<ndim self] | Some a \<Rightarrow> a)"
    and "length req = length ls"
  shows "((\<exists>i s. limit ls axs self = Inl (EmptySliceError i, s))
          \<longleftrightarrow> (\<exists>j<ndim self. int j \<in> set req
                \<and> (case ls ! index_of req (int j) of
                     (x1, x2) \<Rightarrow> nearest (axes self ! j) x1 = nearest (axes self ! j) x2)))
       \<and> (\<forall>j x. j < ndim self \<and> int j \<in> set req \<and> ls ! index_of req (int j) = (x, x)
              \<longrightarrow> (\<exists>i s. limit ls axs self = Inl (EmptySliceError i, s)))"
proof -
  have n: "length (axes self) = ndim self"
    using assms(1) by (simp add: shape_inv_def)
  have a: "\<forall>j\<in>set [0..<ndim self]. j < length (axes self) \<and> axes self ! j \<noteq> []"
    using assms(2) n by (metis atLeastLessThan_iff nth_mem set_upt)
  have b: "\<forall>j\<in>set [0..<ndim self]. int j \<in> set req \<longrightarrow> index_of req (int j) < length ls"
    using assms(4) by (auto dest: index_of_less)
  have "(\<exists>i s. limit ls axs self = Inl (EmptySliceError i, s))
      \<longleftrightarrow> (\<exists>i s. limit_loop ls req [0..<ndim self] (axes self) [] = Inl (EmptySliceError i, s))"
    using assms(4) unfolding assms(3) by (rule limit_empty_slice_iff_loop)
  also have "\<dots> \<longleftrightarrow> (\<exists>j\<in>set [0..<ndim self]. int j \<in> set req
            \<and> (case ls ! index_of req (int j) of
                 (x1, x2) \<Rightarrow> nearest (axes self ! j) x1 = nearest (axes self ! j) x2))"
    using a b by (intro limit_loop_empty_slice_iff) simp_all
  finally have iff: "(\<exists>i s. limit ls axs self = Inl (EmptySliceError i, s))
          \<longleftrightarrow> (\<exists>j<ndim self. int j \<in> set req
                \<and> (case ls ! index_of req (int j) of
                     (x1, x2) \<Rightarrow> nearest (axes self ! j) x1 = nearest (axes self ! j) x2))"
    by auto
  show ?thesis
  proof (intro conjI allI impI)
    show "(\<exists>i s. limit ls axs self = Inl (EmptySliceError i, s))
          \<longleftrightarrow> (\<exists>j<ndim self. int j \<in> set req
                \<and> (case ls ! index_of req (int j) of
                     (x1, x2) \<Rightarrow> nearest (axes self ! j) x1 = nearest (axes self ! j) x2))"
      by (rule iff)
  next
    fix j x
    assume "j < ndim self \<and> int j \<in> set req \<and> ls ! index_of req (int j) = (x, x)"
    then have "\<exists>j<ndim self. int j \<in> set req
                \<and> (case ls ! index_of req (int j) of
                     (x1, x2) \<Rightarrow> nearest (axes self ! j) x1 = nearest (axes self ! j) x2)"
      by auto
    then show "\<exists>i s. limit ls axs self = Inl (EmptySliceError i, s)"
      unfolding iff .
  qed
qed


theorem limit_raises_empty_slice_iff_bounds_coincide_witness:
  "shape_inv \<lparr>data = \<lparr>nd_shape = [3, 2], nd_buf = [1, 2, 3, 4, 5, 6::real]\<rparr>,
               axes = [[0, 1, 2], [0, 1]], labels = [], units = []\<rparr>
   \<and> [] \<notin> set [[0, 1, 2], [0, 1::real]]
   \<and> length [0, 1::int] = length [(0, 1), (0, 0::real)]
   \<and> [(0, 1), (0, 0::real)] ! index_of [0, 1] (int 1) = (0, 0)
   \<and> nearest [0, 1::real] 0 = Inr 0
   \<and> limit [(0, 1), (0, 0)] None
         \<lparr>data = \<lparr>nd_shape = [3, 2], nd_buf = [1, 2, 3, 4, 5, 6::real]\<rparr>,
            axes = [[0, 1, 2], [0, 1]], labels = [], units = []\<rparr>
       = Inl (EmptySliceError 1,
           \<lparr>data = \<lparr>nd_shape = [3, 2], nd_buf = [1, 2, 3, 4, 5, 6]\<rparr>,
              axes = [[0, 1], [0, 1]], labels = [], units = []\<rparr>)
   \<and> (\<exists>i s. limit [(0, 1), (0, 0)] None
         \<lparr>data = \<lparr>nd_shape = [3, 2], nd_buf = [1, 2, 3, 4, 5, 6::real]\<rparr>,
            axes = [[0, 1, 2], [0, 1]], labels = [], units = []\<rparr>
       = Inl (EmptySliceError i, s))"
proof -
  let ?m = "\<lparr>data = \<lparr>nd_shape = [3, 2], nd_buf = [1, 2, 3, 4, 5, 6::real]\<rparr>,
             axes = [[0, 1, 2], [0, 1]], labels = [], units = []\<rparr>"
  have h1: "shape_inv ?m"
    by (simp add: shape_inv_def ndim_def nd_ndim_def shape_def)
  have h2: "[] \<notin> set (axes ?m)"
    by simp
  have h3: "[0, 1] = as_list (case None of None \<Rightarrow> map int [0..<ndim ?m] | Some a \<Rightarrow> a)"
    by (simp add: as_list_def ndim_def nd_ndim_def)
  have h4: "length [0, 1::int] = length [(0, 1), (0, 0::real)]"
    by simp
  have ev: "limit [(0, 1), (0, 0)] None ?m
      = Inl (EmptySliceError 1,
           \<lparr>data = \<lparr>nd_shape = [3, 2], nd_buf = [1, 2, 3, 4, 5, 6]\<rparr>,
              axes = [[0, 1], [0, 1]], labels = [], units = []\<rparr>)"
    by (simp add: limit_def as_list_def ndim_def nd_ndim_def limit_slice_def nearest_def
        slice1_def upt_conv_Cons)
  have "1 < ndim ?m \<and> int 1 \<in> set [0, 1]
      \<and> [(0, 1), (0, 0::real)] ! index_of [0, 1] (int 1) = (0, 0)"
    by (simp add: ndim_def nd_ndim_def)
  then have "\<exists>i s. limit [(0, 1), (0, 0)] None ?m = Inl (EmptySliceError i, s)"
    using limit_raises_empty_slice_iff_bounds_coincide[OF h1 h2 h3 h4] by blast
  then show ?thesis
    using h1 h4 ev by (simp add: nearest_def)
qed

subsection \<open>The data stays well formed\<close>

text \<open>
  The calls that return keep one element for each index tuple in the buffer of the data,
  so the arrays of the model stay arrays.
\<close>

lemma nd_getitem_wf:
  assumes "nd_wf a" and "length sl = nd_ndim a" and "nd_getitem sl a = Inr b"
  shows "nd_wf b"
proof -
  let ?iss = "map2 slice_indices (nd_shape a) sl"
  have len: "length sl = length (nd_shape a)"
    using assms(2) by (simp add: nd_ndim_def)
  have b: "b = \<lparr>nd_shape = map length ?iss, nd_buf = gather (nd_shape a) ?iss (nd_buf a)\<rparr>"
    using assms(3) len by (auto simp: nd_getitem_def nd_ndim_def Let_def split: if_splits)
  have "length (gather (nd_shape a) ?iss (nd_buf a)) = prod_list (map length ?iss)"
  proof (rule gather_length)
    show "list_all2 (\<lambda>is n. \<forall>i\<in>set is. i < n) ?iss (nd_shape a)"
      using len by (rule slice_indices_in_range)
    show "length (nd_buf a) = prod_list (nd_shape a)"
      using assms(1) by (simp add: nd_wf_def)
  qed
  then show ?thesis
    unfolding b by (simp add: nd_wf_def)
qed

lemma limit_wf:
  assumes "shape_inv self" and "nd_wf (data self)" and "limit ls axs self = Inr self'"
  shows "nd_wf (data self')"
proof -
  let ?ns = "nd_shape (data self)"
  have n: "length (axes self) = length ?ns" and sh: "map length (axes self) = ?ns"
    using assms(1) by (simp_all add: shape_inv_def ndim_def nd_ndim_def shape_def)
  from assms(3) obtain axes' slices d where
    loop: "limit_loop ls (as_list (case axs of None \<Rightarrow> map int [0..<ndim self] | Some a \<Rightarrow> a))
             [0..<ndim self] (axes self) [] = Inr (axes', slices)"
    and get: "nd_getitem slices (data self) = Inr d"
    and res: "self' = self\<lparr>axes := axes', data := d\<rparr>"
    by (auto simp: limit_def Let_def split: if_splits sum.splits prod.splits)
  have "\<forall>j\<ge>0. j < length ?ns \<longrightarrow> length (axes self ! j) = ?ns ! j"
    using sh n by (metis nth_map)
  with loop n have "length slices = length ?ns"
    using limit_loop_lengths[of ls _ 0 "length ?ns" "axes self" "[]" axes' slices ?ns]
    by (simp add: ndim_def nd_ndim_def)
  then have "length slices = nd_ndim (data self)"
    by (simp add: nd_ndim_def)
  with assms(2) have "nd_wf d"
    using get by (rule nd_getitem_wf)
  then show ?thesis
    using res by simp
qed

lemma flip_wf:
  assumes "shape_inv self" and "nd_wf (data self)" and "flip v axs self = Inr self'"
  shows "nd_wf (data self')"
proof (cases "length axs = 0")
  case True
  then show ?thesis using assms by (simp add: flip_def)
next
  case False
  have n: "length (axes self) = nd_ndim (data self)"
    using assms(1) by (simp add: shape_inv_def ndim_def)
  from assms(3) False obtain axes' slices d where
    loop: "flip_loop (as_list axs) (axes self) (map (\<lambda>ax. SliceAll) (axes self)) = Inr (axes', slices)"
    and get: "nd_getitem_list v slices (data self) = Inr d"
    and res: "self' = self\<lparr>axes := axes', data := d\<rparr>"
    by (auto simp: flip_def split: sum.splits prod.splits)
  from get have get': "nd_getitem slices (data self) = Inr d"
    by (simp add: nd_getitem_list_def split: if_splits)
  from flip_loop_lengths[OF loop] have "length slices = nd_ndim (data self)"
    using n by auto
  with assms(2) have "nd_wf d"
    using get' by (rule nd_getitem_wf)
  then show ?thesis
    using res by simp
qed

lemma normalize_wf:
  assumes "nd_wf (data self)" and "normalize by_zero self = Inr self'"
  shows "nd_wf (data self')"
proof -
  from assms(2) obtain f where "self' = self\<lparr>data := (data self)\<lparr>nd_buf := map f (nd_buf (data self))\<rparr>\<rparr>"
    by (auto simp: normalize_def split: sum.splits if_splits)
  then show ?thesis
    using assms(1) by (simp add: nd_wf_def)
qed

lemma autolimit_wf:
  assumes "shape_inv self" and "nd_wf (data self)"
    and "autolimit lm ll axs th pad self = Inr self'"
  shows "nd_wf (data self')"
proof -
  from assms(3) obtain limits axs' where "limit limits axs' self = Inr self'"
    by (auto simp: autolimit_def Let_def split: sum.splits)
  with assms(1,2) show ?thesis
    by (rule limit_wf)
qed

subsection \<open>interpolate onto the container's own axes\<close>

text \<open>
  On a two-dimensional container whose axes are already ascending, with the default
  \<^verbatim>\<open>sorted=False\<close>, the sorting loop changes neither the axes nor the data, and the
  targets are the container's axes: the interpolator is handed the container's own grid
  and data, and asked for the values on that same grid. What it returns there is the
  arithmetic of the interpolator, which is outside this development.
\<close>

lemma argsort_sorted:
  assumes "sorted xs"
  shows "argsort xs = [0..<length xs]"
proof -
  have "map (\<lambda>i. xs ! i) [0..<length xs] = xs"
    by (rule map_nth)
  then have "sorted (map (\<lambda>i. xs ! i) [0..<length xs])"
    using assms by simp
  then show ?thesis
    unfolding argsort_def by (rule sort_key_id_if_sorted)
qed

lemma gather_whole_prefix:
  "length buf = prod_list ns \<Longrightarrow> gather ns (map (\<lambda>n. [0..<n]) (take k ns)) buf = buf"
proof (induction ns arbitrary: k buf)
  case Nil
  then show ?case by simp
next
  case (Cons n ns)
  show ?case
  proof (cases k)
    case 0
    then show ?thesis by simp
  next
    case (Suc k')
    let ?p = "prod_list ns"
    let ?ids = "map (\<lambda>n. [0..<n]) (take k' ns)"
    have "map (\<lambda>i. gather ns ?ids (take ?p (drop (i * ?p) buf))) [0..<n]
        = map (\<lambda>i. take ?p (drop (i * ?p) buf)) [0..<n]"
    proof (rule map_cong[OF refl])
      fix i assume "i \<in> set [0..<n]"
      then have "length (take ?p (drop (i * ?p) buf)) = ?p"
        using Cons.prems by (intro block_length[of _ n]) simp_all
      then show "gather ns ?ids (take ?p (drop (i * ?p) buf)) = take ?p (drop (i * ?p) buf)"
        by (rule Cons.IH)
    qed
    note blocks = this
    have "gather (n # ns) (map (\<lambda>n. [0..<n]) (take k (n # ns))) buf
        = concat (map (\<lambda>i. gather ns ?ids (take ?p (drop (i * ?p) buf))) [0..<n])"
      using Suc by simp
    also have "\<dots> = concat (map (\<lambda>i. take ?p (drop (i * ?p) buf)) [0..<n])"
      by (simp only: blocks)
    also have "\<dots> = buf"
      using Cons.prems by (simp add: concat_blocks)
    finally show ?thesis .
  qed
qed

lemma nd_take_whole:
  assumes "nd_wf a" and "i < nd_ndim a"
  shows "nd_take a [0..<nd_shape a ! i] i = Inr a"
proof -
  let ?ns = "nd_shape a"
  have i: "i < length ?ns"
    using assms(2) by (simp add: nd_ndim_def)
  have iss: "map (\<lambda>n. [0..<n]) (take i ?ns) @ [[0..<?ns ! i]] = map (\<lambda>n. [0..<n]) (take (Suc i) ?ns)"
    using i by (simp add: take_Suc_conv_app_nth)
  have shp: "map length (map (\<lambda>n. [0..<n]) (take (Suc i) ?ns)) @ drop (Suc i) ?ns = ?ns"
    by (simp add: comp_def)
  have buf: "gather ?ns (map (\<lambda>n. [0..<n]) (take (Suc i) ?ns)) (nd_buf a) = nd_buf a"
    using assms(1) by (intro gather_whole_prefix) (simp add: nd_wf_def)
  have "\<not> list_ex (\<lambda>k. k \<ge> ?ns ! i) [0..<?ns ! i]"
    by (simp add: list_ex_iff)
  then have "nd_take a [0..<?ns ! i] i
      = Inr \<lparr>nd_shape = map length (map (\<lambda>n. [0..<n]) (take i ?ns) @ [[0..<?ns ! i]])
                         @ drop (Suc i) ?ns,
               nd_buf = gather ?ns (map (\<lambda>n. [0..<n]) (take i ?ns) @ [[0..<?ns ! i]]) (nd_buf a)\<rparr>"
    using assms(2) by (simp add: nd_take_def Let_def del: upt_Suc take_Suc)
  also have "\<dots> = Inr \<lparr>nd_shape = ?ns, nd_buf = nd_buf a\<rparr>"
    by (simp only: iss shp buf)
  also have "\<dots> = Inr a"
    by simp
  finally show ?thesis .
qed

lemma sort_loop_sorted:
  assumes "\<forall>ax\<in>set sa. sorted ax" and "map length sa = nd_shape d" and "nd_wf d"
    and "\<forall>i\<in>set is. i < length sa"
  shows "sort_loop is sa d = Inr (sa, d)"
  using assms(4)
proof (induction "is")
  case Nil
  then show ?case by simp
next
  case (Cons i rest)
  then have i: "i < length sa" by simp
  then have "sorted (sa ! i)"
    using assms(1) by simp
  then have idx: "argsort (sa ! i) = [0..<length (sa ! i)]"
    by (rule argsort_sorted)
  have li: "length (sa ! i) = nd_shape d ! i"
    using assms(2) i by (metis nth_map)
  have "i < nd_ndim d"
    using assms(2) i by (metis length_map nd_ndim_def)
  with assms(3) have take: "nd_take d [0..<nd_shape d ! i] i = Inr d"
    by (rule nd_take_whole)
  have same: "sa[i := map (\<lambda>k. sa ! i ! k) [0..<length (sa ! i)]] = sa"
    by (simp add: map_nth)
  show ?case
    using i Cons by (simp add: idx li[symmetric] same take[unfolded li[symmetric]] Let_def del: upt_Suc)
qed

lemma interpolate_onto_own_sorted_axes:
  assumes "shape_inv self" and "nd_wf (data self)" and "ndim self = 2"
    and "\<forall>ax\<in>set (axes self). sorted ax"
    and "axis1 = None \<or> axis1 = Some (axes self ! 0)"
    and "axis2 = None \<or> axis2 = Some (axes self ! 1)"
  shows "interpolate gi axis1 axis2 degree False self =
     (case gi (axes self) (data self) (axes self) of
        Inl e \<Rightarrow> Inl (e, self)
      | Inr r \<Rightarrow> Inr (self\<lparr>data := r\<rparr>))"
proof -
  have n: "length (axes self) = 2"
    using assms(1,3) by (simp add: shape_inv_def)
  then obtain a0 a1 where ax: "axes self = [a0, a1]"
    by (cases "axes self"; cases "tl (axes self)") (auto simp: numeral_2_eq_2)
  have fill: "fill_targets [0..<ndim self] [axis1, axis2] (axes self) = Inr [Some a0, Some a1]"
    using assms(5,6) by (auto simp: assms(3) ax upt_conv_Cons numeral_2_eq_2)
  have sh: "map length (axes self) = nd_shape (data self)"
    using assms(1) by (simp add: shape_inv_def shape_def)
  have loop: "sort_loop [0..<length (axes self)] (axes self) (data self) = Inr (axes self, data self)"
    using assms(4) sh assms(2) by (rule sort_loop_sorted) simp
  show ?thesis
    by (simp add: interpolate_def fill loop) (simp add: ax split: sum.splits)
qed

end
